theory Spec2Isabelle
  imports Main "HOL-Library.Word"
begin

section \<open>StorageView: a shaped, type-tagged view of a buffer\<close>

text \<open>
  A shallow embedding of \<^verbatim>\<open>include/ctranslate2/storage_view.h\<close>.

  \<^item> \<^verbatim>\<open>size_t\<close> is a 64-bit word: \<open>+\<close> and \<open>*\<close> wrap around as in C++.
  \<^item> The template parameter \<^verbatim>\<open>T\<close> of the typed members is represented by its tag
    \<^verbatim>\<open>DataTypeToEnum<T>::value\<close>. The enumeration \<^verbatim>\<open>DataType\<close> is declared in
    \<^verbatim>\<open>types.h\<close>, which is not part of the sources at hand, so the tag type is a
    type parameter \<open>'t\<close>.
  \<^item> \<^verbatim>\<open>assert(c)\<close> is modelled as it behaves when assertions are enabled
    (\<^verbatim>\<open>NDEBUG\<close> undefined): a failed assertion ends the call with an error value.
  \<^item> Reading a \<^verbatim>\<open>std::vector\<close> out of range and accessing memory that is not
    allocated are undefined behaviour in C++; the model returns an error value there.
  \<^item> Memory is an explicit store of allocation blocks; a pointer is a block and an
    offset (counted in elements) into it.
\<close>

type_synonym size_t = "64 word"

datatype Device = CPU | CUDA

datatype error =
    Assert_dtype         \<comment> \<open>\<^verbatim>\<open>assert(DataTypeToEnum<T>::value == _dtype)\<close>\<close>
  | Assert_offset        \<comment> \<open>\<^verbatim>\<open>assert(offset < _size)\<close>\<close>
  | Assert_index         \<comment> \<open>\<^verbatim>\<open>assert(index < _size)\<close>\<close>
  | Assert_size          \<comment> \<open>\<^verbatim>\<open>assert(size == _size)\<close>\<close>
  | Vector_out_of_range  \<comment> \<open>\<^verbatim>\<open>operator[]\<close> of a \<^verbatim>\<open>std::vector\<close> past its end\<close>
  | Invalid_access       \<comment> \<open>a read or write outside an allocated block\<close>
  | Shape_mismatch       \<comment> \<open>\<^verbatim>\<open>reshape\<close> to a shape of another element count\<close>
  | Borrowed_growth      \<comment> \<open>growth past the capacity of a borrowed buffer\<close>
  | Bad_dimension        \<comment> \<open>a dimension index outside the shape\<close>

subsection \<open>Memory\<close>

datatype ptr = Ptr (block: nat) (off: nat)

definition nullptr :: ptr where
  "nullptr = Ptr 0 0"

definition ptr_add :: "ptr \<Rightarrow> size_t \<Rightarrow> ptr" where
  "ptr_add p k = Ptr (block p) (off p + unat k)"

datatype backend_call =
    Fill Device               \<comment> \<open>\<^verbatim>\<open>primitives<D>::fill\<close>\<close>
  | Copy Device               \<comment> \<open>\<^verbatim>\<open>primitives<D>::copy\<close>\<close>
  | Cross_copy Device Device  \<comment> \<open>\<^verbatim>\<open>cross_device_primitives<D1, D2>::copy\<close>\<close>

text \<open>
  The world outside a StorageView: the allocated blocks with their cells, the next
  block the allocator hands out, the (arbitrary) contents of cells that were
  allocated and never written, and the log of calls made to the primitive backend.
  Block 0 is never allocated: it is the block of \<open>nullptr\<close>.
\<close>

record 'v world =
  heap :: "nat \<Rightarrow> 'v list option"
  next_block :: nat
  uninit :: "nat \<Rightarrow> nat \<Rightarrow> 'v"
  backend_log :: "backend_call list"

definition load :: "'v world \<Rightarrow> ptr \<Rightarrow> nat \<Rightarrow> error + 'v list" where
  "load w p n =
     (if n = 0 then Inr []
      else case heap w (block p) of
             None \<Rightarrow> Inl Invalid_access
           | Some cs \<Rightarrow>
               if off p + n \<le> length cs then Inr (take n (drop (off p) cs))
               else Inl Invalid_access)"

definition store :: "'v world \<Rightarrow> ptr \<Rightarrow> 'v list \<Rightarrow> error + 'v world" where
  "store w p vs =
     (if vs = [] then Inr w
      else case heap w (block p) of
             None \<Rightarrow> Inl Invalid_access
           | Some cs \<Rightarrow>
               if off p + length vs \<le> length cs
               then Inr (w\<lparr>heap := (heap w)(block p \<mapsto>
                               take (off p) cs @ vs @ drop (off p + length vs) cs)\<rparr>)
               else Inl Invalid_access)"

definition deref :: "'v world \<Rightarrow> ptr \<Rightarrow> error + 'v" where
  "deref w p =
     (case heap w (block p) of
        None \<Rightarrow> Inl Invalid_access
      | Some cs \<Rightarrow> if off p < length cs then Inr (cs ! off p) else Inl Invalid_access)"

subsection \<open>The object\<close>

text \<open>
  The protected members \<^verbatim>\<open>_dtype\<close>, \<^verbatim>\<open>_device\<close>, \<^verbatim>\<open>_data\<close>, \<^verbatim>\<open>_own_data\<close>,
  \<^verbatim>\<open>_allocated_size\<close>, \<^verbatim>\<open>_size\<close>, \<^verbatim>\<open>_shape\<close> and \<^verbatim>\<open>_strides\<close>; an identifier
  cannot start with an underscore, so each field is prefixed \<open>sv\<close>.
\<close>

record 't StorageView =
  sv_dtype :: 't
  sv_device :: Device
  sv_data :: ptr
  sv_own_data :: bool
  sv_allocated_size :: size_t
  sv_size :: size_t
  sv_shape :: "size_t list"
  sv_strides :: "size_t list"

text \<open>
  The member initialisers of the class: \<^verbatim>\<open>_data = nullptr\<close>, \<^verbatim>\<open>_own_data = true\<close>,
  \<^verbatim>\<open>_allocated_size = 0\<close>, \<^verbatim>\<open>_size = 0\<close>, empty \<^verbatim>\<open>_shape\<close> and \<^verbatim>\<open>_strides\<close>, with
  the \<^verbatim>\<open>_dtype\<close> and \<^verbatim>\<open>_device\<close> a constructor's initialiser list gives.
\<close>

definition initial :: "'t \<Rightarrow> Device \<Rightarrow> 't StorageView" where
  "initial T d =
     \<lparr>sv_dtype = T, sv_device = d, sv_data = nullptr, sv_own_data = True,
      sv_allocated_size = 0, sv_size = 0, sv_shape = [], sv_strides = []\<rparr>"

subsection \<open>Typed access\<close>

text \<open>\<^verbatim>\<open>template <typename T> const T* data() const\<close> (and its non-const twin).\<close>

definition data :: "'t \<Rightarrow> 't StorageView \<Rightarrow> error + ptr" where
  "data T s = (if T = sv_dtype s then Inr (sv_data s) else Inl Assert_dtype)"

text \<open>
  The loop of \<^verbatim>\<open>index\<close>:
  \<^verbatim>\<open>for (size_t i = 0; i < indices.size(); ++i) offset += indices[i] * _strides[i];\<close>
  \<^verbatim>\<open>indices[i]\<close> is in range by the loop condition; \<^verbatim>\<open>_strides[i]\<close> is not checked by
  the code and is out of range when \<open>indices\<close> is longer than \<open>_strides\<close>.
\<close>

function index_loop :: "size_t list \<Rightarrow> size_t list \<Rightarrow> nat \<Rightarrow> size_t \<Rightarrow> error + size_t" where
  "index_loop indices strides i offset =
     (if i < length indices then
        (if i < length strides
         then index_loop indices strides (Suc i) (offset + indices ! i * strides ! i)
         else Inl Vector_out_of_range)
      else Inr offset)"
  by pat_completeness auto
termination
  by (relation "measure (\<lambda>(indices, strides, i, offset). length indices - i)") auto

declare index_loop.simps [simp del]

text \<open>\<^verbatim>\<open>template <typename T> const T* index(const std::vector<size_t>& indices) const\<close>\<close>

definition index :: "'t \<Rightarrow> size_t list \<Rightarrow> 't StorageView \<Rightarrow> error + ptr" where
  "index T indices s =
     (if T \<noteq> sv_dtype s then Inl Assert_dtype
      else case index_loop indices (sv_strides s) 0 0 of
             Inl e \<Rightarrow> Inl e
           | Inr offset \<Rightarrow>
               if \<not> offset < sv_size s then Inl Assert_offset
               else case data T s of
                      Inl e \<Rightarrow> Inl e
                    | Inr p \<Rightarrow> Inr (ptr_add p offset))"

text \<open>
  \<^verbatim>\<open>template <typename T> const T& at(size_t index) const\<close>: the assertion on the
  index comes first, then \<^verbatim>\<open>data<T>()[index]\<close>. The reference returned is modelled by
  the pointer to the element; \<open>at_value\<close> reads through it.
\<close>

definition at :: "'t \<Rightarrow> size_t \<Rightarrow> 't StorageView \<Rightarrow> error + ptr" where
  "at T i s =
     (if \<not> i < sv_size s then Inl Assert_index
      else case data T s of
             Inl e \<Rightarrow> Inl e
           | Inr p \<Rightarrow> Inr (ptr_add p i))"

definition at_value :: "'t \<Rightarrow> size_t \<Rightarrow> 'v world \<times> 't StorageView \<Rightarrow> error + 'v" where
  "at_value T i ws =
     (case at T i (snd ws) of
        Inl e \<Rightarrow> Inl e
      | Inr p \<Rightarrow> deref (fst ws) p)"

text \<open>
  \<^verbatim>\<open>template <typename T> const T& at(const std::vector<size_t>& indices) const\<close>:
  \<^verbatim>\<open>index<T>(indices)[0]\<close>.
\<close>

definition at_indices :: "'t \<Rightarrow> size_t list \<Rightarrow> 't StorageView \<Rightarrow> error + ptr" where
  "at_indices T indices s =
     (case index T indices s of
        Inl e \<Rightarrow> Inl e
      | Inr p \<Rightarrow> Inr (ptr_add p 0))"

definition at_indices_value ::
  "'t \<Rightarrow> size_t list \<Rightarrow> 'v world \<times> 't StorageView \<Rightarrow> error + 'v" where
  "at_indices_value T indices ws =
     (case at_indices T indices (snd ws) of
        Inl e \<Rightarrow> Inl e
      | Inr p \<Rightarrow> deref (fst ws) p)"

subsection \<open>The primitive backend and the allocator\<close>

text \<open>
  Modelled from the spec: \<^verbatim>\<open>primitives<D>::fill\<close> of \<^verbatim>\<open>primitives/primitives.h\<close>, which
  is not part of the sources. The spec gives its contract as \<open>fill(ptr, value, count)\<close>,
  a bulk fill of \<open>count\<close> elements; the call is logged with its device.
\<close>

definition primitives_fill ::
  "Device \<Rightarrow> ptr \<Rightarrow> 'v \<Rightarrow> size_t \<Rightarrow> 'v world \<Rightarrow> error + 'v world" where
  "primitives_fill D p v n w =
     (case store w p (replicate (unat n) v) of
        Inl e \<Rightarrow> Inl e
      | Inr w' \<Rightarrow> Inr (w'\<lparr>backend_log := backend_log w' @ [Fill D]\<rparr>))"

text \<open>
  Modelled from the spec: the element copy shared by the copy primitives, which are
  not part of the sources: \<open>count\<close> elements are read at the source pointer and
  written at the destination pointer.
\<close>

definition copy_cells :: "ptr \<Rightarrow> ptr \<Rightarrow> size_t \<Rightarrow> 'v world \<Rightarrow> error + 'v world" where
  "copy_cells src dst n w =
     (case load w src (unat n) of
        Inl e \<Rightarrow> Inl e
      | Inr vs \<Rightarrow> store w dst vs)"

text \<open>
  Modelled from the spec: \<^verbatim>\<open>primitives<D>::copy\<close> of \<^verbatim>\<open>primitives/primitives.h\<close>, not
  part of the sources; the spec's \<open>copy(src_ptr, dst_ptr, count)\<close> on one device.
\<close>

definition primitives_copy ::
  "Device \<Rightarrow> ptr \<Rightarrow> ptr \<Rightarrow> size_t \<Rightarrow> 'v world \<Rightarrow> error + 'v world" where
  "primitives_copy D src dst n w =
     (case copy_cells src dst n w of
        Inl e \<Rightarrow> Inl e
      | Inr w' \<Rightarrow> Inr (w'\<lparr>backend_log := backend_log w' @ [Copy D]\<rparr>))"

text \<open>
  Modelled from the spec: \<^verbatim>\<open>cross_device_primitives<D1, D2>::copy\<close>, not part of the
  sources; the spec's cross-device \<open>copy(src_ptr, dst_ptr, count)\<close> for an ordered pair
  of devices.
\<close>

definition cross_device_copy ::
  "Device \<Rightarrow> Device \<Rightarrow> ptr \<Rightarrow> ptr \<Rightarrow> size_t \<Rightarrow> 'v world \<Rightarrow> error + 'v world" where
  "cross_device_copy D1 D2 src dst n w =
     (case copy_cells src dst n w of
        Inl e \<Rightarrow> Inl e
      | Inr w' \<Rightarrow> Inr (w'\<lparr>backend_log := backend_log w' @ [Cross_copy D1 D2]\<rparr>))"

text \<open>
  Modelled from the spec: the allocation of an owned buffer, whose code is not part of
  the sources. A fresh block of \<open>n\<close> cells is handed out; its cells hold whatever the
  allocator left there (\<open>uninit\<close>). The 64-byte alignment of the spec is a property of
  addresses and is not represented.
\<close>

definition alloc_data :: "size_t \<Rightarrow> 'v world \<Rightarrow> ptr \<times> 'v world" where
  "alloc_data n w =
     (Ptr (next_block w) 0,
      w\<lparr>heap := (heap w)(next_block w \<mapsto> map (uninit w (next_block w)) [0..<unat n]),
        next_block := Suc (next_block w)\<rparr>)"

text \<open>
  Modelled from the spec: freeing an owned buffer, whose code is not part of the
  sources. The block of the pointer is no longer allocated afterwards.
\<close>

definition free_data :: "ptr \<Rightarrow> 'v world \<Rightarrow> 'v world" where
  "free_data p w = w\<lparr>heap := (heap w)(block p := None)\<rparr>"

subsection \<open>Shape arithmetic\<close>

text \<open>
  Modelled from the spec: the static helper \<^verbatim>\<open>size(const Shape&)\<close> is declared in the
  header and defined elsewhere. The spec calls it the product of the shape's
  dimensions and reserves rank 0 for the empty view, whose logical size is 0 (the
  header's member initialisers: \<^verbatim>\<open>_size = 0\<close> with an empty \<^verbatim>\<open>_shape\<close>; \<open>clear()\<close> sets
  size 0 and shape \<open>{}\<close>). So the size of the empty shape is 0, and the size of any
  other shape is the product of its dimensions, in \<^verbatim>\<open>size_t\<close> arithmetic.
\<close>

definition size_of_shape :: "size_t list \<Rightarrow> size_t" where
  "size_of_shape dims = (if dims = [] then 0 else prod_list dims)"

text \<open>
  Modelled from the spec: the static helper \<^verbatim>\<open>stride(const Shape&, size_t)\<close>, declared
  only. The spec: row-major, \<open>stride[i] = product(shape[i+1..end])\<close>.
\<close>

definition stride_of_shape :: "size_t list \<Rightarrow> nat \<Rightarrow> size_t" where
  "stride_of_shape shape d = prod_list (drop (Suc d) shape)"

text \<open>
  Modelled from the spec: the static helper \<^verbatim>\<open>strides(const Shape&)\<close>, declared only:
  one stride per dimension, computed from the shape alone.
\<close>

definition strides_of_shape :: "size_t list \<Rightarrow> size_t list" where
  "strides_of_shape shape = map (stride_of_shape shape) [0..<length shape]"

text \<open>
  Modelled from the spec: the accessor \<^verbatim>\<open>shape()\<close>, declared only.
\<close>

definition shape :: "'t StorageView \<Rightarrow> size_t list" where
  "shape s = sv_shape s"

text \<open>
  Modelled from the spec: the accessor \<^verbatim>\<open>stride(ssize_t dim)\<close>, declared only. The
  spec: a negative index counts from the end.
\<close>

definition stride :: "int \<Rightarrow> 't StorageView \<Rightarrow> error + size_t" where
  "stride d s =
     (let r = int (length (sv_strides s)); j = (if d < 0 then r + d else d)
      in if 0 \<le> j \<and> j < r then Inr (sv_strides s ! nat j) else Inl Bad_dimension)"

subsection \<open>Mutators defined outside the header\<close>

text \<open>
  Modelled from the spec: \<^verbatim>\<open>clear()\<close>, declared only. The spec: sets the logical size
  to 0 and the shape to \<open>{}\<close> without releasing the buffer.
\<close>

definition clear :: "'t StorageView \<Rightarrow> 't StorageView" where
  "clear s = s\<lparr>sv_size := 0, sv_shape := [], sv_strides := strides_of_shape []\<rparr>"

text \<open>
  Modelled from the spec: \<^verbatim>\<open>release()\<close>, declared only. The spec: frees an owned
  buffer (no-op if borrowed), resets capacity, size and shape to empty. The object
  holds no buffer afterwards.
\<close>

definition release :: "'v world \<times> 't StorageView \<Rightarrow> 'v world \<times> 't StorageView" where
  "release ws =
     ((if sv_own_data (snd ws) \<and> sv_data (snd ws) \<noteq> nullptr
       then free_data (sv_data (snd ws)) (fst ws) else fst ws),
      clear ((snd ws)\<lparr>sv_data := nullptr, sv_allocated_size := 0\<rparr>))"

text \<open>
  Modelled from the spec: the destructor, declared only. The spec: releases owned
  memory; no-op for borrowed memory.
\<close>

definition destroy :: "'v world \<times> 't StorageView \<Rightarrow> 'v world" where
  "destroy ws =
     (if sv_own_data (snd ws) \<and> sv_data (snd ws) \<noteq> nullptr
      then free_data (sv_data (snd ws)) (fst ws) else fst ws)"

text \<open>
  Modelled from the spec: \<^verbatim>\<open>reserve(size_t)\<close>, declared only. The spec: ensures the
  capacity is at least the requested one by reallocating if needed; the existing
  contents are discarded (the new buffer is a fresh allocation); a borrowed buffer
  never reallocates, growth past its capacity is a caller error.
\<close>

definition reserve ::
  "size_t \<Rightarrow> 'v world \<times> 't StorageView \<Rightarrow> error + 'v world \<times> 't StorageView" where
  "reserve n ws =
     (if n \<le> sv_allocated_size (snd ws) then Inr ws
      else if \<not> sv_own_data (snd ws) then Inl Borrowed_growth
      else case alloc_data n (destroy ws) of
             (p, w') \<Rightarrow> Inr (w', (snd ws)\<lparr>sv_data := p, sv_allocated_size := n\<rparr>))"

text \<open>
  Modelled from the spec: \<^verbatim>\<open>reshape(const Shape&)\<close>, declared only. The spec: requires
  the product of the new shape to equal the logical size, recomputes strides only, and
  fails otherwise.
\<close>

definition reshape :: "size_t list \<Rightarrow> 't StorageView \<Rightarrow> error + 't StorageView" where
  "reshape new_shape s =
     (if size_of_shape new_shape = sv_size s
      then Inr (s\<lparr>sv_shape := new_shape, sv_strides := strides_of_shape new_shape\<rparr>)
      else Inl Shape_mismatch)"

text \<open>
  Modelled from the spec: \<^verbatim>\<open>resize(const Shape&)\<close>, declared only. The spec: sets the
  logical size to the product of the new shape; if this exceeds the capacity,
  reallocates an owned buffer of exactly the new size without preserving the
  contents; if it fits, reuses the buffer and only updates shape and strides.
\<close>

definition resize ::
  "size_t list \<Rightarrow> 'v world \<times> 't StorageView \<Rightarrow> error + 'v world \<times> 't StorageView" where
  "resize new_shape ws =
     (case (if sv_allocated_size (snd ws) < size_of_shape new_shape
            then reserve (size_of_shape new_shape) ws else Inr ws) of
        Inl e \<Rightarrow> Inl e
      | Inr ws' \<Rightarrow>
          Inr (fst ws', (snd ws')\<lparr>sv_size := size_of_shape new_shape, sv_shape := new_shape,
                                sv_strides := strides_of_shape new_shape\<rparr>))"

text \<open>
  Modelled from the spec: \<^verbatim>\<open>resize(size_t dim, size_t new_size)\<close>, declared only. The
  spec: rebuilds the shape with one dimension replaced, then resizes.
\<close>

definition resize_dim ::
  "size_t \<Rightarrow> size_t \<Rightarrow> 'v world \<times> 't StorageView \<Rightarrow> error + 'v world \<times> 't StorageView" where
  "resize_dim d new_size ws =
     (if unat d < length (sv_shape (snd ws))
      then resize ((sv_shape (snd ws))[unat d := new_size]) ws
      else Inl Bad_dimension)"

text \<open>
  Modelled from the spec: \<^verbatim>\<open>grow(size_t dim, size_t size)\<close>, declared only. The spec:
  adjusts one dimension by a delta and resizes.
\<close>

definition grow ::
  "size_t \<Rightarrow> size_t \<Rightarrow> 'v world \<times> 't StorageView \<Rightarrow> error + 'v world \<times> 't StorageView" where
  "grow d extra ws =
     (if unat d < length (sv_shape (snd ws))
      then resize_dim d (sv_shape (snd ws) ! unat d + extra) ws
      else Inl Bad_dimension)"

text \<open>
  Modelled from the spec: \<^verbatim>\<open>shrink(size_t dim, size_t size)\<close>, declared only. The
  spec: adjusts one dimension by a delta and resizes. The delta is subtracted in
  \<^verbatim>\<open>size_t\<close> arithmetic: an amount larger than the dimension wraps around.
\<close>

definition shrink ::
  "size_t \<Rightarrow> size_t \<Rightarrow> 'v world \<times> 't StorageView \<Rightarrow> error + 'v world \<times> 't StorageView" where
  "shrink d amount ws =
     (if unat d < length (sv_shape (snd ws))
      then resize_dim d (sv_shape (snd ws) ! unat d - amount) ws
      else Inl Bad_dimension)"

text \<open>
  Modelled from the spec: copy assignment (\<^verbatim>\<open>operator=(const StorageView&)\<close> and
  \<^verbatim>\<open>deep_copy\<close>), declared only. The spec: equivalent to \<open>deep_copy\<close>, which allocates
  a new owned buffer on the device of the source and copies all elements; the element
  type of an object never changes, so a source of another element type is refused.
\<close>

definition deep_copy ::
  "'t StorageView \<Rightarrow> 'v world \<times> 't StorageView \<Rightarrow> error + 'v world \<times> 't StorageView" where
  "deep_copy other ws =
     (if sv_dtype other \<noteq> sv_dtype (snd ws) then Inl Assert_dtype
      else case release ws of
             (w1, s1) \<Rightarrow>
               (case alloc_data (sv_size other) w1 of
                  (p, w2) \<Rightarrow>
                    (case primitives_copy (sv_device other) (sv_data other) p (sv_size other) w2 of
                       Inl e \<Rightarrow> Inl e
                     | Inr w3 \<Rightarrow>
                         Inr (w3, s1\<lparr>sv_device := sv_device other, sv_data := p,
                                     sv_own_data := True,
                                     sv_allocated_size := sv_size other,
                                     sv_size := sv_size other,
                                     sv_shape := sv_shape other,
                                     sv_strides := strides_of_shape (sv_shape other)\<rparr>))))"

subsection \<open>Members defined in the header\<close>

text \<open>
  \<^verbatim>\<open>template <typename T> StorageView& assign(T* data, const Shape& shape)\<close>
\<close>

definition assign ::
  "'t \<Rightarrow> ptr \<Rightarrow> size_t list \<Rightarrow> 'v world \<times> 't StorageView
     \<Rightarrow> error + 'v world \<times> 't StorageView" where
  "assign T p new_shape ws =
     (if T \<noteq> sv_dtype (snd ws) then Inl Assert_dtype
      else case release ws of
             (w1, s1) \<Rightarrow>
               (case reshape new_shape
                       (s1\<lparr>sv_data := p, sv_own_data := False,
                           sv_allocated_size := size_of_shape new_shape,
                           sv_size := size_of_shape new_shape\<rparr>) of
                  Inl e \<Rightarrow> Inl e
                | Inr s2 \<Rightarrow> Inr (w1, s2)))"

text \<open>
  \<^verbatim>\<open>template <typename T> StorageView& fill(T value)\<close>;
  \<^verbatim>\<open>DEVICE_DISPATCH(_device, primitives<D>::fill(data<T>(), value, _size))\<close> calls the
  fill primitive of the device \<^verbatim>\<open>_device\<close>.
\<close>

definition fill ::
  "'t \<Rightarrow> 'v \<Rightarrow> 'v world \<times> 't StorageView \<Rightarrow> error + 'v world \<times> 't StorageView" where
  "fill T v ws =
     (if T \<noteq> sv_dtype (snd ws) then Inl Assert_dtype
      else case data T (snd ws) of
             Inl e \<Rightarrow> Inl e
           | Inr p \<Rightarrow>
               (case primitives_fill (sv_device (snd ws)) p v (sv_size (snd ws)) (fst ws) of
                  Inl e \<Rightarrow> Inl e
                | Inr w' \<Rightarrow> Inr (w', snd ws)))"

text \<open>
  \<^verbatim>\<open>template <typename T> StorageView& copy_from(const T* data, size_t size, Device device)\<close>.
  The first parameter says whether the macro \<^verbatim>\<open>WITH_CUDA\<close> is defined: the
  cross-device branch stands between \<^verbatim>\<open>#ifdef WITH_CUDA\<close> and \<^verbatim>\<open>#endif\<close>.
\<close>

definition copy_from ::
  "bool \<Rightarrow> 't \<Rightarrow> ptr \<Rightarrow> size_t \<Rightarrow> Device \<Rightarrow> 'v world \<times> 't StorageView
     \<Rightarrow> error + 'v world \<times> 't StorageView" where
  "copy_from with_cuda T src n device ws =
     (if T \<noteq> sv_dtype (snd ws) then Inl Assert_dtype
      else if n \<noteq> sv_size (snd ws) then Inl Assert_size
      else case data T (snd ws) of
             Inl e \<Rightarrow> Inl e
           | Inr dst \<Rightarrow>
               (case (if with_cuda \<and> device \<noteq> sv_device (snd ws)
                      then (if device = CUDA
                            then cross_device_copy CUDA CPU src dst n (fst ws)
                            else cross_device_copy CPU CUDA src dst n (fst ws))
                      else primitives_copy device src dst n (fst ws)) of
                  Inl e \<Rightarrow> Inl e
                | Inr w' \<Rightarrow> Inr (w', snd ws)))"

subsection \<open>Constructors defined in the header\<close>

text \<open>
  \<^verbatim>\<open>template <typename T> StorageView(const Shape& shape, T init, Device device)\<close>
\<close>

definition StorageView_filled ::
  "'t \<Rightarrow> size_t list \<Rightarrow> 'v \<Rightarrow> Device \<Rightarrow> 'v world \<Rightarrow> error + 'v world \<times> 't StorageView" where
  "StorageView_filled T new_shape init device w =
     (case resize new_shape (w, initial T device) of
        Inl e \<Rightarrow> Inl e
      | Inr ws \<Rightarrow> fill T init ws)"

text \<open>
  \<^verbatim>\<open>template <typename T> StorageView(T scalar, Device device)\<close>
\<close>

definition StorageView_scalar ::
  "'t \<Rightarrow> 'v \<Rightarrow> Device \<Rightarrow> 'v world \<Rightarrow> error + 'v world \<times> 't StorageView" where
  "StorageView_scalar T scalar device w =
     (case resize [1] (w, initial T device) of
        Inl e \<Rightarrow> Inl e
      | Inr ws \<Rightarrow> fill T scalar ws)"

text \<open>
  \<^verbatim>\<open>template <typename T> StorageView(const Shape& shape, const std::vector<T>& init, Device device)\<close>;
  the vector is given by its \<^verbatim>\<open>init.data()\<close> and \<^verbatim>\<open>init.size()\<close>.
\<close>

definition StorageView_from_vector ::
  "bool \<Rightarrow> 't \<Rightarrow> size_t list \<Rightarrow> ptr \<Rightarrow> size_t \<Rightarrow> Device \<Rightarrow> 'v world
     \<Rightarrow> error + 'v world \<times> 't StorageView" where
  "StorageView_from_vector with_cuda T new_shape init_data init_size device w =
     (case resize new_shape (w, initial T device) of
        Inl e \<Rightarrow> Inl e
      | Inr ws \<Rightarrow> copy_from with_cuda T init_data init_size CPU ws)"

text \<open>
  \<^verbatim>\<open>template <typename T> StorageView(const Shape& shape, T* data, Device device)\<close>
\<close>

definition StorageView_from_buffer ::
  "'t \<Rightarrow> size_t list \<Rightarrow> ptr \<Rightarrow> Device \<Rightarrow> 'v world \<Rightarrow> error + 'v world \<times> 't StorageView" where
  "StorageView_from_buffer T new_shape p device w =
     assign T p new_shape (w, initial T device)"

subsection \<open>The spec's formula for the flat offset\<close>

text \<open>
  The spec's words for the offset \<^verbatim>\<open>index\<close> computes: \<open>sum(indices[i] * strides[i])\<close>,
  over the positions of \<open>indices\<close>, in \<^verbatim>\<open>size_t\<close> arithmetic.
\<close>

definition flat_offset :: "size_t list \<Rightarrow> size_t list \<Rightarrow> size_t" where
  "flat_offset indices strides = (\<Sum>k<length indices. indices ! k * strides ! k)"

subsection \<open>The invariants of the data model\<close>

text \<open>
  The spec's words: the logical size equals the product of the shape's dimensions
  (the size of the shape, 0 for the empty view), and the allocated capacity is at
  least the logical size.
\<close>

definition invariant :: "'t StorageView \<Rightarrow> bool" where
  "invariant s \<longleftrightarrow>
     sv_size s = size_of_shape (sv_shape s) \<and> sv_size s \<le> sv_allocated_size s"

text \<open>The mutating operations of the claim, and the call of one of them.\<close>

datatype 't mutator =
    Resize "size_t list"
  | Resize_dim size_t size_t
  | Grow size_t size_t
  | Shrink size_t size_t
  | Reshape "size_t list"
  | Clear
  | Release
  | Reserve size_t
  | Assign 't ptr "size_t list"
  | Copy_assign "'t StorageView"

fun mutate ::
  "'t mutator \<Rightarrow> 'v world \<times> 't StorageView \<Rightarrow> error + 'v world \<times> 't StorageView" where
  "mutate (Resize new_shape) ws = resize new_shape ws"
| "mutate (Resize_dim d n) ws = resize_dim d n ws"
| "mutate (Grow d n) ws = grow d n ws"
| "mutate (Shrink d n) ws = shrink d n ws"
| "mutate (Reshape new_shape) ws =
     (case reshape new_shape (snd ws) of Inl e \<Rightarrow> Inl e | Inr s \<Rightarrow> Inr (fst ws, s))"
| "mutate Clear ws = Inr (fst ws, clear (snd ws))"
| "mutate Release ws = Inr (release ws)"
| "mutate (Reserve n) ws = reserve n ws"
| "mutate (Assign T p new_shape) ws = assign T p new_shape ws"
| "mutate (Copy_assign other) ws = deep_copy other ws"


subsection \<open>Observations\<close>

text \<open>What a call left behind: the backend log, a block of the heap, the object.\<close>

definition result_log :: "error + 'v world \<times> 'a \<Rightarrow> error + backend_call list" where
  "result_log r = (case r of Inl e \<Rightarrow> Inl e | Inr ws \<Rightarrow> Inr (backend_log (fst ws)))"

definition result_block :: "nat \<Rightarrow> error + 'v world \<times> 'a \<Rightarrow> error + 'v list option" where
  "result_block b r = (case r of Inl e \<Rightarrow> Inl e | Inr ws \<Rightarrow> Inr (heap (fst ws) b))"

definition result_view :: "error + 'v world \<times> 'a \<Rightarrow> error + 'a" where
  "result_view r = (case r of Inl e \<Rightarrow> Inl e | Inr ws \<Rightarrow> Inr (snd ws))"

subsection \<open>Concrete instances\<close>

text \<open>
  For the concrete instances the tag type has two tags: \<open>DT_FLOAT\<close>, the default tag of
  the header, and \<open>DT_INT32\<close> for another element type. Cells hold integers.
\<close>

datatype DataType = DT_FLOAT | DT_INT32

definition empty_world :: "int world" where
  "empty_world = \<lparr>heap = Map.empty, next_block = 1, uninit = (\<lambda>b k. 99), backend_log = []\<rparr>"

text \<open>A \<open>[2, 3]\<close> view filled with ones, as the filling constructor builds it.\<close>

definition ones_world :: "int world" where
  "ones_world = \<lparr>heap = [1 \<mapsto> [1, 1, 1, 1, 1, 1]], next_block = 2, uninit = (\<lambda>b k. 99),
                  backend_log = [Fill CPU]\<rparr>"

definition ones_view :: "DataType StorageView" where
  "ones_view = \<lparr>sv_dtype = DT_FLOAT, sv_device = CPU, sv_data = Ptr 1 0, sv_own_data = True,
                 sv_allocated_size = 6, sv_size = 6, sv_shape = [2, 3], sv_strides = [3, 1]\<rparr>"

text \<open>
  A destination of four elements (block 1) and a source of four elements (block 2).
\<close>

definition dst4_world :: "int world" where
  "dst4_world = \<lparr>heap = [1 \<mapsto> [0, 0, 0, 0], 2 \<mapsto> [5, 6, 7, 8]], next_block = 3,
                  uninit = (\<lambda>b k. 99), backend_log = []\<rparr>"

definition dst4_view :: "DataType StorageView" where
  "dst4_view = \<lparr>sv_dtype = DT_FLOAT, sv_device = CPU, sv_data = Ptr 1 0, sv_own_data = True,
                 sv_allocated_size = 4, sv_size = 4, sv_shape = [4], sv_strides = [1]\<rparr>"

text \<open>A vector of four elements in host memory (block 1), nothing else allocated.\<close>

definition vec_world :: "int world" where
  "vec_world = \<lparr>heap = [1 \<mapsto> [5, 6, 7, 8]], next_block = 2, uninit = (\<lambda>b k. 99),
                 backend_log = []\<rparr>"

text \<open>
  The \<open>[2, 3]\<close> view of ones (block 1) next to a buffer of six elements that belongs
  to someone else (block 2).
\<close>

definition ext_world :: "int world" where
  "ext_world = \<lparr>heap = [1 \<mapsto> [1, 1, 1, 1, 1, 1], 2 \<mapsto> [10, 20, 30, 40, 50, 60]],
                 next_block = 3, uninit = (\<lambda>b k. 99), backend_log = [Fill CPU]\<rparr>"


section \<open>Properties\<close>

subsection \<open>Helper lemmas\<close>

lemma index_loop_sum:
  "length indices \<le> length strides \<Longrightarrow> i \<le> length indices \<Longrightarrow>
   index_loop indices strides i offset =
     Inr (offset + (\<Sum>k = i..<length indices. indices ! k * strides ! k))"
proof (induction indices strides i offset rule: index_loop.induct)
  case (1 indices strides i offset)
  show ?case
  proof (cases "i < length indices")
    case True
    with "1.prems" have lt: "i < length strides" by simp
    from True have le: "Suc i \<le> length indices" by simp
    have "index_loop indices strides i offset =
          index_loop indices strides (Suc i) (offset + indices ! i * strides ! i)"
      using True lt by (subst index_loop.simps) simp
    also have "\<dots> = Inr (offset + indices ! i * strides ! i +
                 (\<Sum>k = Suc i..<length indices. indices ! k * strides ! k))"
      using "1.IH" [OF True lt "1.prems"(1) le] .
    also have "\<dots> = Inr (offset + (\<Sum>k = i..<length indices. indices ! k * strides ! k))"
      using True by (simp add: sum.atLeast_Suc_lessThan add.assoc)
    finally show ?thesis .
  next
    case False
    with "1.prems" have "i = length indices" by simp
    then show ?thesis by (subst index_loop.simps) simp
  qed
qed

lemma index_loop_flat_offset:
  "length indices \<le> length strides \<Longrightarrow>
   index_loop indices strides 0 0 = Inr (flat_offset indices strides)"
  by (simp add: index_loop_sum flat_offset_def atLeast0LessThan)

lemma index_loop_out_of_range:
  "i \<le> length indices \<Longrightarrow> length strides < length indices \<Longrightarrow> i \<le> length strides \<Longrightarrow>
   index_loop indices strides i offset = Inl Vector_out_of_range"
proof (induction indices strides i offset rule: index_loop.induct)
  case (1 indices strides i offset)
  show ?case
  proof (cases "i < length strides")
    case True
    with "1.prems" have lt: "i < length indices" by simp
    have "index_loop indices strides i offset =
          index_loop indices strides (Suc i) (offset + indices ! i * strides ! i)"
      using True lt by (subst index_loop.simps) simp
    also have "\<dots> = Inl Vector_out_of_range"
      using "1.IH" [OF lt True] lt True "1.prems" by simp
    finally show ?thesis .
  next
    case False
    with "1.prems" have "i < length indices" by simp
    with False show ?thesis by (subst index_loop.simps) simp
  qed
qed

lemma flat_offset_pair:
  "flat_offset [a, b] [c, d] = a * c + b * d"
  by (simp add: flat_offset_def lessThan_Suc numeral_2_eq_2)

lemma load_length: "load w p n = Inr vs \<Longrightarrow> length vs = n"
  by (auto simp: load_def split: if_splits option.splits)

lemma store_ok:
  assumes "heap w (block p) = Some cs" and "off p + length vs \<le> length cs"
  shows "\<exists>w'. store w p vs = Inr w' \<and>
           heap w' = (heap w)(block p \<mapsto> take (off p) cs @ vs @ drop (off p + length vs) cs) \<and>
           backend_log w' = backend_log w \<and> next_block w' = next_block w \<and>
           uninit w' = uninit w"
proof (cases "vs = []")
  case True
  have "(heap w)(block p \<mapsto> cs) = heap w"
    using assms(1) by (rule map_upd_triv)
  with True show ?thesis by (simp add: store_def)
next
  case False
  with assms show ?thesis by (simp add: store_def)
qed

lemma store_frame:
  "store w p vs = Inr w' \<Longrightarrow>
     backend_log w' = backend_log w \<and> next_block w' = next_block w \<and> uninit w' = uninit w \<and>
     (\<forall>b. b \<noteq> block p \<longrightarrow> heap w' b = heap w b)"
  by (auto simp: store_def split: if_splits option.splits)

lemma copy_cells_frame:
  "copy_cells src dst n w = Inr w' \<Longrightarrow>
     backend_log w' = backend_log w \<and> next_block w' = next_block w \<and> uninit w' = uninit w \<and>
     (\<forall>b. b \<noteq> block dst \<longrightarrow> heap w' b = heap w b)"
  by (auto simp: copy_cells_def split: sum.splits dest: store_frame)

lemma copy_from_route_eq:
  assumes "T = sv_dtype (snd ws)" and "n = sv_size (snd ws)"
  shows "copy_from with_cuda T src n device ws =
           (case copy_cells src (sv_data (snd ws)) n (fst ws) of
              Inl e \<Rightarrow> Inl e
            | Inr w1 \<Rightarrow>
                Inr (w1\<lparr>backend_log := backend_log w1 @
                          [if with_cuda \<and> device \<noteq> sv_device (snd ws)
                           then Cross_copy device (sv_device (snd ws)) else Copy device]\<rparr>,
                     snd ws))"
proof (cases "with_cuda \<and> device \<noteq> sv_device (snd ws)")
  case True
  then have "device = CUDA \<and> sv_device (snd ws) = CPU \<or> device = CPU \<and> sv_device (snd ws) = CUDA"
    by (cases device; cases "sv_device (snd ws)") simp_all
  with True assms show ?thesis
    by (auto simp: copy_from_def data_def cross_device_copy_def split: sum.splits)
next
  case False
  with assms show ?thesis
    by (auto simp: copy_from_def data_def primitives_copy_def split: sum.splits)
qed

lemma copy_cells_ok:
  assumes "load w src (unat n) = Inr vs"
    and "heap w (block dst) = Some cs" and "off dst + unat n \<le> length cs"
  shows "\<exists>w'. copy_cells src dst n w = Inr w' \<and>
           heap w' = (heap w)(block dst \<mapsto> take (off dst) cs @ vs @ drop (off dst + unat n) cs) \<and>
           backend_log w' = backend_log w \<and> next_block w' = next_block w \<and>
           uninit w' = uninit w"
  using store_ok [of w dst cs vs] assms load_length [OF assms(1)]
  by (simp add: copy_cells_def)

lemma load_after_write:
  assumes "heap w' (block p) = Some (take (off p) cs @ vs @ drop (off p + length vs) cs)"
    and "off p + length vs \<le> length cs"
  shows "load w' p (length vs) = Inr vs"
  using assms by (simp add: load_def)


lemma reserve_frame:
  "reserve n ws = Inr ws' \<Longrightarrow>
     sv_dtype (snd ws') = sv_dtype (snd ws) \<and> sv_device (snd ws') = sv_device (snd ws) \<and>
     sv_own_data (snd ws') = sv_own_data (snd ws) \<and> sv_size (snd ws') = sv_size (snd ws) \<and>
     sv_shape (snd ws') = sv_shape (snd ws) \<and> sv_strides (snd ws') = sv_strides (snd ws) \<and>
     n \<le> sv_allocated_size (snd ws') \<and>
     backend_log (fst ws') = backend_log (fst ws)"
  by (auto simp: reserve_def alloc_data_def destroy_def free_data_def split: if_splits)

lemma resize_result:
  "resize new_shape ws = Inr ws' \<Longrightarrow>
     sv_dtype (snd ws') = sv_dtype (snd ws) \<and> sv_device (snd ws') = sv_device (snd ws) \<and>
     sv_own_data (snd ws') = sv_own_data (snd ws) \<and>
     sv_size (snd ws') = size_of_shape new_shape \<and>
     sv_shape (snd ws') = new_shape \<and> sv_strides (snd ws') = strides_of_shape new_shape \<and>
     size_of_shape new_shape \<le> sv_allocated_size (snd ws') \<and>
     backend_log (fst ws') = backend_log (fst ws)"
  by (auto simp: resize_def split: if_splits sum.splits dest!: reserve_frame)

lemma reserve_owned_ok:
  "sv_own_data (snd ws) \<Longrightarrow> \<exists>ws'. reserve n ws = Inr ws'"
  by (simp add: reserve_def split: prod.splits)

lemma resize_owned_ok:
  "sv_own_data (snd ws) \<Longrightarrow> \<exists>ws'. resize new_shape ws = Inr ws'"
  using reserve_owned_ok [of ws "size_of_shape new_shape"]
  by (auto simp: resize_def)

lemma result_log_copy_from:
  assumes "T = sv_dtype (snd ws)" and "n = sv_size (snd ws)"
    and "copy_cells src (sv_data (snd ws)) n (fst ws) = Inr w1"
  shows "result_log (copy_from with_cuda T src n device ws) =
           Inr (backend_log (fst ws) @
                  [if with_cuda \<and> device \<noteq> sv_device (snd ws)
                   then Cross_copy device (sv_device (snd ws)) else Copy device])"
  using assms copy_cells_frame [OF assms(3)]
  by (simp add: copy_from_route_eq result_log_def)


lemma release_fields:
  "sv_size (snd (release ws)) = 0" "sv_shape (snd (release ws)) = []"
  "sv_allocated_size (snd (release ws)) = 0" "sv_data (snd (release ws)) = nullptr"
  "sv_dtype (snd (release ws)) = sv_dtype (snd ws)"
  "sv_own_data (snd (release ws)) = sv_own_data (snd ws)"
  "fst (release ws) = destroy ws"
  by (simp_all add: release_def clear_def destroy_def)

lemma size_of_shape_nonempty:
  "dims \<noteq> [] \<Longrightarrow> size_of_shape dims = prod_list dims"
  by (simp add: size_of_shape_def)

lemma invariant_resize:
  "resize new_shape ws = Inr ws' \<Longrightarrow> invariant (snd ws')"
  using resize_result [of new_shape ws ws']
  by (simp add: invariant_def)

lemma invariant_reserve:
  "invariant (snd ws) \<Longrightarrow> reserve n ws = Inr ws' \<Longrightarrow> invariant (snd ws')"
  by (auto simp: reserve_def invariant_def alloc_data_def split: if_splits)

lemma invariant_reshape:
  "invariant s \<Longrightarrow> reshape new_shape s = Inr s' \<Longrightarrow> invariant s'"
  by (auto simp: reshape_def invariant_def split: if_splits)

lemma invariant_clear: "invariant (clear s)"
  by (simp add: clear_def invariant_def size_of_shape_def)

lemma invariant_release: "invariant (snd (release ws))"
  by (simp add: release_def clear_def invariant_def size_of_shape_def)

lemma invariant_assign:
  "assign T p new_shape ws = Inr ws' \<Longrightarrow> invariant (snd ws')"
  by (auto simp: assign_def reshape_def invariant_def release_def split: if_splits)

lemma invariant_deep_copy:
  "invariant other \<Longrightarrow> deep_copy other ws = Inr ws' \<Longrightarrow> invariant (snd ws')"
  by (auto simp: deep_copy_def invariant_def release_def clear_def
      split: if_splits prod.splits sum.splits)

lemma invariant_initial: "invariant (initial T d)"
  by (simp add: initial_def invariant_def size_of_shape_def)

lemma stride_strides_of_shape:
  "i < length S \<Longrightarrow>
   stride (int i) (s\<lparr>sv_shape := S, sv_strides := strides_of_shape S\<rparr>) =
     Inr (prod_list (drop (Suc i) S))"
  by (simp add: stride_def strides_of_shape_def stride_of_shape_def Let_def)

lemma at_value_reshaped:
  "at_value T k (w, s\<lparr>sv_shape := S, sv_strides := st\<rparr>) = at_value T k (w, s)"
  by (simp add: at_value_def at_def data_def)

lemma destroy_frame:
  "backend_log (destroy ws) = backend_log (fst ws)"
  "next_block (destroy ws) = next_block (fst ws)"
  "uninit (destroy ws) = uninit (fst ws)"
  "b \<noteq> block (sv_data (snd ws)) \<Longrightarrow> heap (destroy ws) b = heap (fst ws) b"
  "sv_own_data (snd ws) \<Longrightarrow> sv_data (snd ws) \<noteq> nullptr \<Longrightarrow>
     heap (destroy ws) (block (sv_data (snd ws))) = None"
  "\<not> sv_own_data (snd ws) \<Longrightarrow> destroy ws = fst ws"
  by (simp_all add: destroy_def free_data_def)










text \<open>The view of ones is what the filling constructor builds in an empty world.\<close>

lemma rep6: "replicate 6 x = [x, x, x, x, x, x]"
  by (simp add: numeral_eq_Suc)

lemma upt6: "[0..<6] = [0, 1, 2, 3, 4, 5 :: nat]"
  by (simp add: upt_rec)

lemma ones_view_constructed:
  "StorageView_filled DT_FLOAT [2, 3] 1 CPU empty_world = Inr (ones_world, ones_view)"
proof -
  have sz: "size_of_shape [2, 3] = 6" by (simp add: size_of_shape_def)
  have st: "strides_of_shape [2, 3] = [3, 1]"
    by (simp add: strides_of_shape_def stride_of_shape_def upt_rec)
  have r: "resize [2, 3] (empty_world, initial DT_FLOAT CPU) =
             Inr (empty_world\<lparr>heap := [1 \<mapsto> [99, 99, 99, 99, 99, 99]], next_block := 2\<rparr>,
                  ones_view)"
    by (simp add: resize_def reserve_def sz st initial_def destroy_def nullptr_def
        alloc_data_def upt6 empty_world_def ones_view_def)
  show ?thesis
    unfolding StorageView_filled_def r sum.case
    by (simp add: fill_def data_def primitives_fill_def store_def rep6
        empty_world_def ones_world_def ones_view_def)
qed

subsection \<open>Multi-dimensional indexing\<close>

text \<open>
  C7. \<open>index<T>\<close> computes the flat offset as the sum of \<open>indices[i] * strides[i]\<close> over
  the positions of \<open>indices\<close> (in \<^verbatim>\<open>size_t\<close> arithmetic) and returns the data pointer
  advanced by that offset; it does so exactly when the type tag matches and the offset
  is strictly less than the logical size, and fails the corresponding assertion
  otherwise. An index vector longer than the strides reads \<^verbatim>\<open>_strides\<close> out of range,
  which the code does not check.
\<close>

theorem index_flat_offset:
  "(length indices \<le> length (sv_strides s) \<longrightarrow>
      index_loop indices (sv_strides s) 0 0 =
        Inr (\<Sum>k<length indices. indices ! k * sv_strides s ! k)) \<and>
   index T indices s =
     (if T \<noteq> sv_dtype s then Inl Assert_dtype
      else if length (sv_strides s) < length indices then Inl Vector_out_of_range
      else if \<not> flat_offset indices (sv_strides s) < sv_size s then Inl Assert_offset
      else Inr (ptr_add (sv_data s) (flat_offset indices (sv_strides s))))"
proof (intro conjI impI)
  assume "length indices \<le> length (sv_strides s)"
  then show "index_loop indices (sv_strides s) 0 0 =
        Inr (\<Sum>k<length indices. indices ! k * sv_strides s ! k)"
    using index_loop_flat_offset [of indices "sv_strides s"] by (simp add: flat_offset_def)
next
  show "index T indices s =
     (if T \<noteq> sv_dtype s then Inl Assert_dtype
      else if length (sv_strides s) < length indices then Inl Vector_out_of_range
      else if \<not> flat_offset indices (sv_strides s) < sv_size s then Inl Assert_offset
      else Inr (ptr_add (sv_data s) (flat_offset indices (sv_strides s))))"
  proof (cases "length (sv_strides s) < length indices")
    case True
    then have "index_loop indices (sv_strides s) 0 0 = Inl Vector_out_of_range"
      by (intro index_loop_out_of_range) simp_all
    with True show ?thesis by (simp add: index_def)
  next
    case False
    then have "index_loop indices (sv_strides s) 0 0 = Inr (flat_offset indices (sv_strides s))"
      by (intro index_loop_flat_offset) simp
    with False show ?thesis by (simp add: index_def data_def)
  qed
qed

theorem index_flat_offset_witness:
  "length [1, 2 :: size_t] \<le> length (sv_strides ones_view) \<and>
   index_loop [1, 2] (sv_strides ones_view) 0 0 = Inr 5 \<and>
   index DT_FLOAT [1, 2] ones_view = Inr (Ptr 1 5) \<and>
   index DT_FLOAT [1, 3] ones_view = Inl Assert_offset \<and>
   index DT_INT32 [1, 2] ones_view = Inl Assert_dtype \<and>
   index DT_FLOAT [1, 2, 0] ones_view = Inl Vector_out_of_range"
proof -
  have len: "length [1, 2 :: size_t] \<le> length (sv_strides ones_view)"
    by (simp add: ones_view_def)
  have loop: "index_loop [1, 2] (sv_strides ones_view) 0 0 = Inr 5"
    using index_flat_offset [of "[1, 2]" ones_view DT_FLOAT, THEN conjunct1, THEN mp, OF len]
    by (simp add: ones_view_def lessThan_Suc numeral_2_eq_2)
  have rest: "index DT_FLOAT [1, 2] ones_view = Inr (Ptr 1 5) \<and>
      index DT_FLOAT [1, 3] ones_view = Inl Assert_offset \<and>
      index DT_INT32 [1, 2] ones_view = Inl Assert_dtype \<and>
      index DT_FLOAT [1, 2, 0] ones_view = Inl Vector_out_of_range"
    using index_flat_offset [of "[1, 2]" ones_view DT_FLOAT, THEN conjunct2]
          index_flat_offset [of "[1, 3]" ones_view DT_FLOAT, THEN conjunct2]
          index_flat_offset [of "[1, 2]" ones_view DT_INT32, THEN conjunct2]
          index_flat_offset [of "[1, 2, 0]" ones_view DT_FLOAT, THEN conjunct2]
    by (simp add: ones_view_def flat_offset_pair ptr_add_def)
  from len loop rest show ?thesis by blast
qed

text \<open>
  C9. The only bounds check of multi-dimensional access is the one on the flat offset:
  for a matching type tag and an index vector no longer than the strides, whose flat
  offset is below the logical size, \<open>index<T>\<close> and \<open>at<T>(indices)\<close> succeed and address
  the element that flat access \<open>at<T>(offset)\<close> addresses, whatever the single indices
  are; nothing compares \<open>indices[i]\<close> with \<open>dim(i)\<close>. Two index vectors with
  the same flat offset address the same element.
\<close>

theorem index_checks_flat_offset_only:
  assumes "T = sv_dtype s"
    and "length indices \<le> length (sv_strides s)"
    and "flat_offset indices (sv_strides s) < sv_size s"
  shows "index T indices s = Inr (ptr_add (sv_data s) (flat_offset indices (sv_strides s))) \<and>
         index T indices s = at T (flat_offset indices (sv_strides s)) s \<and>
         at_indices T indices s = at T (flat_offset indices (sv_strides s)) s \<and>
         at_indices_value T indices (w, s) = at_value T (flat_offset indices (sv_strides s)) (w, s) \<and>
         (\<forall>indices'. length indices' \<le> length (sv_strides s) \<and>
              flat_offset indices' (sv_strides s) = flat_offset indices (sv_strides s)
              \<longrightarrow> index T indices' s = index T indices s)"
proof -
  have loop: "\<And>ix. length ix \<le> length (sv_strides s) \<Longrightarrow>
                index_loop ix (sv_strides s) 0 0 = Inr (flat_offset ix (sv_strides s))"
    by (rule index_loop_flat_offset)
  have ix: "index T indices s = Inr (ptr_add (sv_data s) (flat_offset indices (sv_strides s)))"
    using assms loop [OF assms(2)] by (simp add: index_def data_def)
  have flat: "at T (flat_offset indices (sv_strides s)) s =
                Inr (ptr_add (sv_data s) (flat_offset indices (sv_strides s)))"
    using assms by (simp add: at_def data_def)
  have ati: "at_indices T indices s = Inr (ptr_add (sv_data s) (flat_offset indices (sv_strides s)))"
    using ix by (simp add: at_indices_def ptr_add_def)
  have val: "at_indices_value T indices (w, s) =
               at_value T (flat_offset indices (sv_strides s)) (w, s)"
    using ati flat by (simp add: at_indices_value_def at_value_def)
  have other: "index T indices' s = index T indices s"
    if "length indices' \<le> length (sv_strides s)"
      and "flat_offset indices' (sv_strides s) = flat_offset indices (sv_strides s)"
    for indices'
    using that assms loop [OF that(1)] loop [OF assms(2)] by (simp add: index_def)
  from ix flat ati val other show ?thesis by simp
qed

text \<open>
  The instance of the claim: for shape \<open>[2, 3]\<close> the indices \<open>{0, 5}\<close>, whose second
  index is not below \<open>dim(1) = 3\<close>, are accepted and address the element of \<open>{1, 2}\<close>.
\<close>

theorem index_checks_flat_offset_only_witness:
  "DT_FLOAT = sv_dtype ones_view \<and>
   length [0, 5 :: size_t] \<le> length (sv_strides ones_view) \<and>
   flat_offset [0, 5] (sv_strides ones_view) < sv_size ones_view \<and>
   sv_shape ones_view = [2, 3] \<and> \<not> (5 :: size_t) < sv_shape ones_view ! 1 \<and>
   index DT_FLOAT [0, 5] ones_view = Inr (Ptr 1 5) \<and>
   index DT_FLOAT [0, 5] ones_view = index DT_FLOAT [1, 2] ones_view \<and>
   at_indices_value DT_FLOAT [0, 5] (ones_world, ones_view) =
     at_value DT_FLOAT 5 (ones_world, ones_view)"
proof -
  have a: "DT_FLOAT = sv_dtype ones_view" by (simp add: ones_view_def)
  have b: "length [0, 5 :: size_t] \<le> length (sv_strides ones_view)"
    by (simp add: ones_view_def)
  have off: "flat_offset [0, 5] (sv_strides ones_view) = 5"
    by (simp add: ones_view_def flat_offset_pair)
  have c: "flat_offset [0, 5] (sv_strides ones_view) < sv_size ones_view"
    by (simp add: off) (simp add: ones_view_def)
  have same: "length [1, 2 :: size_t] \<le> length (sv_strides ones_view) \<and>
      flat_offset [1, 2] (sv_strides ones_view) = flat_offset [0, 5] (sv_strides ones_view)"
    by (simp add: ones_view_def flat_offset_pair)
  note inst = index_checks_flat_offset_only [OF a b c, of ones_world]
  have i1: "index DT_FLOAT [0, 5] ones_view = Inr (Ptr 1 5)"
    using inst by (simp add: off) (simp add: ones_view_def ptr_add_def)
  have i2: "index DT_FLOAT [0, 5] ones_view = index DT_FLOAT [1, 2] ones_view"
    using inst same by metis
  have i3: "at_indices_value DT_FLOAT [0, 5] (ones_world, ones_view) =
            at_value DT_FLOAT 5 (ones_world, ones_view)"
    using inst by (simp add: off)
  have d: "sv_shape ones_view = [2, 3] \<and> \<not> (5 :: size_t) < sv_shape ones_view ! 1"
    by (simp add: ones_view_def)
  from a b c d i1 i2 i3 show ?thesis by simp
qed

text \<open>
  C8. Each typed member defined in the header asserts that the tag of the caller's
  type equals \<^verbatim>\<open>_dtype\<close> before anything else: with a mismatched type, \<open>data<T>\<close>,
  \<open>index<T>\<close>, \<open>fill\<close>, \<open>copy_from\<close> and \<open>assign\<close> fail that assertion, and nothing is
  read, written, freed or logged. With the matching type \<open>data<T>\<close> returns the
  buffer's pointer.
\<close>

theorem typed_access_checks_dtype:
  "(T \<noteq> sv_dtype (snd ws) \<longrightarrow>
      data T (snd ws) = Inl Assert_dtype \<and>
      index T indices (snd ws) = Inl Assert_dtype \<and>
      fill T v ws = Inl Assert_dtype \<and>
      copy_from with_cuda T src n device ws = Inl Assert_dtype \<and>
      assign T p new_shape ws = Inl Assert_dtype) \<and>
   (T = sv_dtype (snd ws) \<longrightarrow> data T (snd ws) = Inr (sv_data (snd ws)))"
  by (simp add: data_def index_def fill_def copy_from_def assign_def)

theorem typed_access_checks_dtype_witness:
  "DT_INT32 \<noteq> sv_dtype (snd (ones_world, ones_view)) \<and>
   data DT_INT32 ones_view = Inl Assert_dtype \<and>
   index DT_INT32 [1, 2] ones_view = Inl Assert_dtype \<and>
   fill DT_INT32 7 (ones_world, ones_view) = Inl Assert_dtype \<and>
   copy_from True DT_INT32 (Ptr 1 0) 6 CPU (ones_world, ones_view) = Inl Assert_dtype \<and>
   assign DT_INT32 (Ptr 1 0) [2, 3] (ones_world, ones_view) = Inl Assert_dtype \<and>
   data DT_FLOAT ones_view = Inr (Ptr 1 0)"
  using typed_access_checks_dtype
          [of DT_INT32 "(ones_world, ones_view)" "[1, 2]" 7 True "Ptr 1 0" 6 CPU "Ptr 1 0" "[2, 3]"]
        typed_access_checks_dtype
          [of DT_FLOAT "(ones_world, ones_view)" "[1, 2]" 7 True "Ptr 1 0" 6 CPU "Ptr 1 0" "[2, 3]"]
  by (simp add: ones_view_def)

subsection \<open>Copying from a raw pointer\<close>

text \<open>
  C3. \<open>copy_from(data, size, device)\<close> with \<open>size\<close> different from the logical size is
  rejected by an assertion (the one on the type tag if that fails first, the one on
  the size otherwise). With the matching tag and \<open>size\<close> equal to the logical size, a
  readable source and a destination buffer that holds \<open>size\<close> cells, the call succeeds
  and writes exactly the \<open>size\<close> source elements at the start of the buffer: the other
  cells of the buffer's block and all other blocks are unchanged, and the object
  itself is unchanged.
\<close>

theorem copy_from_checks_count:
  "(n \<noteq> sv_size (snd ws) \<longrightarrow>
      copy_from with_cuda T src n device ws =
        Inl (if T \<noteq> sv_dtype (snd ws) then Assert_dtype else Assert_size)) \<and>
   (T = sv_dtype (snd ws) \<and> n = sv_size (snd ws) \<and>
    load (fst ws) src (unat n) = Inr vs \<and>
    heap (fst ws) (block (sv_data (snd ws))) = Some cs \<and>
    off (sv_data (snd ws)) + unat n \<le> length cs \<longrightarrow>
      (\<exists>w'. copy_from with_cuda T src n device ws = Inr (w', snd ws) \<and>
            length vs = unat n \<and>
            heap w' = (heap (fst ws))(block (sv_data (snd ws)) \<mapsto>
                        take (off (sv_data (snd ws))) cs @ vs @
                        drop (off (sv_data (snd ws)) + unat n) cs) \<and>
            load w' (sv_data (snd ws)) (unat n) = Inr vs))"
proof (intro conjI impI)
  assume "n \<noteq> sv_size (snd ws)"
  then show "copy_from with_cuda T src n device ws =
               Inl (if T \<noteq> sv_dtype (snd ws) then Assert_dtype else Assert_size)"
    by (simp add: copy_from_def)
next
  let ?dst = "sv_data (snd ws)"
  assume h: "T = sv_dtype (snd ws) \<and> n = sv_size (snd ws) \<and>
             load (fst ws) src (unat n) = Inr vs \<and>
             heap (fst ws) (block ?dst) = Some cs \<and> off ?dst + unat n \<le> length cs"
  then have len: "length vs = unat n" using load_length [of "fst ws" src "unat n" vs] by blast
  from h obtain w1 where
    cc: "copy_cells src ?dst n (fst ws) = Inr w1" and
    hp: "heap w1 = (heap (fst ws))(block ?dst \<mapsto>
                      take (off ?dst) cs @ vs @ drop (off ?dst + unat n) cs)"
    using copy_cells_ok [of "fst ws" src n vs ?dst cs] by blast
  let ?w' = "w1\<lparr>backend_log := backend_log w1 @
                 [if with_cuda \<and> device \<noteq> sv_device (snd ws)
                  then Cross_copy device (sv_device (snd ws)) else Copy device]\<rparr>"
  have res: "copy_from with_cuda T src n device ws = Inr (?w', snd ws)"
    using h cc copy_from_route_eq [of T ws n with_cuda src device] by simp
  have hp': "heap ?w' = (heap (fst ws))(block ?dst \<mapsto>
                      take (off ?dst) cs @ vs @ drop (off ?dst + unat n) cs)"
    using hp by simp
  from h have fits: "off ?dst + length vs \<le> length cs"
    unfolding len by blast
  have "load ?w' ?dst (length vs) = Inr vs"
  proof (rule load_after_write [where cs = cs])
    show "heap ?w' (block ?dst) =
            Some (take (off ?dst) cs @ vs @ drop (off ?dst + length vs) cs)"
      unfolding hp' len by simp
    show "off ?dst + length vs \<le> length cs" by (rule fits)
  qed
  with res len hp' show "\<exists>w'. copy_from with_cuda T src n device ws = Inr (w', snd ws) \<and>
            length vs = unat n \<and>
            heap w' = (heap (fst ws))(block ?dst \<mapsto>
                        take (off ?dst) cs @ vs @ drop (off ?dst + unat n) cs) \<and>
            load w' ?dst (unat n) = Inr vs"
    by (intro exI [of _ ?w']) simp
qed

text \<open>
  The spec's scenario: a destination of size 4 refuses a source count of 3, and
  accepts a count of 4, after which the destination holds the four source elements.
\<close>

theorem copy_from_checks_count_witness:
  "(3 :: size_t) \<noteq> sv_size (snd (dst4_world, dst4_view)) \<and>
   copy_from True DT_FLOAT (Ptr 2 0) 3 CPU (dst4_world, dst4_view) = Inl Assert_size \<and>
   load dst4_world (Ptr 2 0) (unat (4 :: size_t)) = Inr [5, 6, 7, 8] \<and>
   result_view (copy_from True DT_FLOAT (Ptr 2 0) 4 CPU (dst4_world, dst4_view)) = Inr dst4_view \<and>
   result_block 1 (copy_from True DT_FLOAT (Ptr 2 0) 4 CPU (dst4_world, dst4_view)) =
     Inr (Some [5, 6, 7, 8]) \<and>
   result_block 2 (copy_from True DT_FLOAT (Ptr 2 0) 4 CPU (dst4_world, dst4_view)) =
     Inr (Some [5, 6, 7, 8])"
proof -
  have ne: "(3 :: size_t) \<noteq> sv_size (snd (dst4_world, dst4_view))"
    by (simp add: dst4_view_def)
  have rej: "copy_from True DT_FLOAT (Ptr 2 0) 3 CPU (dst4_world, dst4_view) = Inl Assert_size"
    using copy_from_checks_count [of 3 "(dst4_world, dst4_view)" True DT_FLOAT "Ptr 2 0" CPU]
    by (simp add: dst4_view_def)
  have ld: "load dst4_world (Ptr 2 0) (unat (4 :: size_t)) = Inr [5, 6, 7, 8]"
    by (simp add: load_def dst4_world_def)
  have pre: "DT_FLOAT = sv_dtype (snd (dst4_world, dst4_view)) \<and>
             (4 :: size_t) = sv_size (snd (dst4_world, dst4_view)) \<and>
             load (fst (dst4_world, dst4_view)) (Ptr 2 0) (unat (4 :: size_t)) = Inr [5, 6, 7, 8] \<and>
             heap (fst (dst4_world, dst4_view)) (block (sv_data (snd (dst4_world, dst4_view)))) =
               Some [0, 0, 0, 0] \<and>
             off (sv_data (snd (dst4_world, dst4_view))) + unat (4 :: size_t) \<le> length [0, 0, 0, 0 :: int]"
    using ld by (simp add: dst4_view_def dst4_world_def)
  from copy_from_checks_count
         [of 4 "(dst4_world, dst4_view)" True DT_FLOAT "Ptr 2 0" CPU "[5, 6, 7, 8]" "[0, 0, 0, 0]"] pre
  obtain w' where
    r: "copy_from True DT_FLOAT (Ptr 2 0) 4 CPU (dst4_world, dst4_view) = Inr (w', dst4_view)" and
    hp: "heap w' = (heap dst4_world)(block (sv_data dst4_view) \<mapsto>
           take (off (sv_data dst4_view)) [0, 0, 0, 0] @ [5, 6, 7, 8] @
           drop (off (sv_data dst4_view) + unat (4 :: size_t)) [0, 0, 0, 0])"
    by auto
  have b1: "heap w' 1 = Some [5, 6, 7, 8]" and b2: "heap w' 2 = Some [5, 6, 7, 8]"
    using hp by (simp_all add: dst4_view_def dst4_world_def)
  from ne rej ld r b1 b2 show ?thesis
    by (simp add: result_view_def result_block_def)
qed


text \<open>
  C4, as the code has it. The cross-device branch of \<open>copy_from\<close> is compiled only
  when \<^verbatim>\<open>WITH_CUDA\<close> is defined. For a call that passes its assertions and whose
  element copy succeeds: in a build with \<^verbatim>\<open>WITH_CUDA\<close>, a source device different from
  the object's device goes through the cross-device copy from the source device to
  the object's device; equal devices go through the same-device copy of that device;
  in a build without \<^verbatim>\<open>WITH_CUDA\<close> the call always goes through the same-device copy
  dispatched on the source device argument, whether or not the devices differ.
\<close>

theorem copy_from_route:
  assumes "T = sv_dtype (snd ws)" and "n = sv_size (snd ws)"
    and "copy_cells src (sv_data (snd ws)) n (fst ws) = Inr w1"
  shows "(with_cuda \<and> device \<noteq> sv_device (snd ws) \<longrightarrow>
            result_log (copy_from with_cuda T src n device ws) =
              Inr (backend_log (fst ws) @ [Cross_copy device (sv_device (snd ws))])) \<and>
         (device = sv_device (snd ws) \<longrightarrow>
            result_log (copy_from with_cuda T src n device ws) =
              Inr (backend_log (fst ws) @ [Copy (sv_device (snd ws))])) \<and>
         (\<not> with_cuda \<longrightarrow>
            result_log (copy_from with_cuda T src n device ws) =
              Inr (backend_log (fst ws) @ [Copy device]))"
proof -
  have log: "backend_log w1 = backend_log (fst ws)"
    using copy_cells_frame [OF assms(3)] by simp
  have "copy_from with_cuda T src n device ws =
          Inr (w1\<lparr>backend_log := backend_log w1 @
                     [if with_cuda \<and> device \<noteq> sv_device (snd ws)
                      then Cross_copy device (sv_device (snd ws)) else Copy device]\<rparr>,
               snd ws)"
    using assms by (simp add: copy_from_route_eq)
  then have rl: "result_log (copy_from with_cuda T src n device ws) =
          Inr (backend_log (fst ws) @
                 [if with_cuda \<and> device \<noteq> sv_device (snd ws)
                  then Cross_copy device (sv_device (snd ws)) else Copy device])"
    by (simp add: result_log_def log)
  show ?thesis
    unfolding rl by simp
qed

theorem copy_from_route_witness:
  "DT_FLOAT = sv_dtype (snd (dst4_world, dst4_view)) \<and>
   (4 :: size_t) = sv_size (snd (dst4_world, dst4_view)) \<and>
   CUDA \<noteq> sv_device dst4_view \<and>
   result_log (copy_from True DT_FLOAT (Ptr 2 0) 4 CUDA (dst4_world, dst4_view)) =
     Inr [Cross_copy CUDA CPU] \<and>
   result_log (copy_from True DT_FLOAT (Ptr 2 0) 4 CPU (dst4_world, dst4_view)) =
     Inr [Copy CPU] \<and>
   result_log (copy_from False DT_FLOAT (Ptr 2 0) 4 CPU (dst4_world, dst4_view)) =
     Inr [Copy CPU]"
proof -
  let ?w1 = "dst4_world\<lparr>heap := (heap dst4_world)(1 \<mapsto> [5, 6, 7, 8])\<rparr>"
  have a: "DT_FLOAT = sv_dtype (snd (dst4_world, dst4_view))"
    and b: "(4 :: size_t) = sv_size (snd (dst4_world, dst4_view))"
    and d: "CUDA \<noteq> sv_device dst4_view"
    by (simp_all add: dst4_view_def)
  have c: "copy_cells (Ptr 2 0) (sv_data (snd (dst4_world, dst4_view))) 4
             (fst (dst4_world, dst4_view)) = Inr ?w1"
    by (simp add: copy_cells_def load_def store_def dst4_world_def dst4_view_def)
  have lg: "backend_log (fst (dst4_world, dst4_view)) = []"
    by (simp add: dst4_world_def)
  have dv: "sv_device (snd (dst4_world, dst4_view)) = CPU"
    by (simp add: dst4_view_def)
  have r1: "result_log (copy_from True DT_FLOAT (Ptr 2 0) 4 CUDA (dst4_world, dst4_view)) =
              Inr [Cross_copy CUDA CPU]"
    using copy_from_route [OF a b c, of True CUDA, THEN conjunct1]
    unfolding lg dv by simp
  have r2: "result_log (copy_from True DT_FLOAT (Ptr 2 0) 4 CPU (dst4_world, dst4_view)) =
              Inr [Copy CPU]"
    using copy_from_route [OF a b c, of True CPU, THEN conjunct2, THEN conjunct1]
    unfolding lg dv by simp
  have r3: "result_log (copy_from False DT_FLOAT (Ptr 2 0) 4 CPU (dst4_world, dst4_view)) =
              Inr [Copy CPU]"
    using copy_from_route [OF a b c, of False CPU, THEN conjunct2, THEN conjunct2]
    unfolding lg dv by simp
  from a b d r1 r2 r3 show ?thesis by blast
qed

text \<open>
  The claim as stated fails in a build without \<^verbatim>\<open>WITH_CUDA\<close>: the object is on the
  CPU, the source device is CUDA, and the call goes through \<^verbatim>\<open>primitives<CUDA>::copy\<close>,
  the same-device copy, not through a cross-device copy.
\<close>

theorem copy_from_route_counterexample:
  "CUDA \<noteq> sv_device dst4_view \<and>
   result_log (copy_from False DT_FLOAT (Ptr 2 0) 4 CUDA (dst4_world, dst4_view)) =
     Inr [Copy CUDA]"
  by (simp add: copy_from_def data_def primitives_copy_def copy_cells_def load_def store_def
      result_log_def dst4_world_def dst4_view_def)

subsection \<open>Construction from a vector\<close>

text \<open>
  C10, as the code has it. The constructor from a \<^verbatim>\<open>std::vector\<close> resizes the new
  object and calls \<open>copy_from\<close> with \<^verbatim>\<open>Device::CPU\<close> as the source device, whatever the
  device of the object. The resize of a fresh object always succeeds and keeps the
  requested device. When the vector has as many elements as the shape and the element
  copy succeeds, the backend is called once: in a build with \<^verbatim>\<open>WITH_CUDA\<close>, the
  cross-device copy from CPU to CUDA for an object on CUDA and the same-device CPU
  copy for an object on the CPU; in a build without \<^verbatim>\<open>WITH_CUDA\<close>, the same-device
  CPU copy for either device.
\<close>

theorem from_vector_source_is_host:
  "StorageView_from_vector with_cuda T new_shape init_data init_size device w =
     (case resize new_shape (w, initial T device) of
        Inl e \<Rightarrow> Inl e
      | Inr ws \<Rightarrow> copy_from with_cuda T init_data init_size CPU ws) \<and>
   (\<exists>ws'. resize new_shape (w, initial T device) = Inr ws' \<and> sv_device (snd ws') = device) \<and>
   (resize new_shape (w, initial T device) = Inr ws \<and>
    init_size = size_of_shape new_shape \<and>
    copy_cells init_data (sv_data (snd ws)) init_size (fst ws) = Inr w1 \<longrightarrow>
      result_log (StorageView_from_vector with_cuda T new_shape init_data init_size device w) =
        Inr (backend_log w @
               [if with_cuda \<and> device = CUDA then Cross_copy CPU CUDA else Copy CPU]))"
proof (intro conjI impI)
  show "StorageView_from_vector with_cuda T new_shape init_data init_size device w =
     (case resize new_shape (w, initial T device) of
        Inl e \<Rightarrow> Inl e
      | Inr ws \<Rightarrow> copy_from with_cuda T init_data init_size CPU ws)"
    by (simp add: StorageView_from_vector_def)
next
  have own: "sv_own_data (snd (w, initial T device))" by (simp add: initial_def)
  from resize_owned_ok [OF own, of new_shape] obtain ws'
    where r: "resize new_shape (w, initial T device) = Inr ws'" by blast
  from resize_result [OF r] have "sv_device (snd ws') = device" by (simp add: initial_def)
  with r show "\<exists>ws'. resize new_shape (w, initial T device) = Inr ws' \<and>
                      sv_device (snd ws') = device" by blast
next
  assume h: "resize new_shape (w, initial T device) = Inr ws \<and>
             init_size = size_of_shape new_shape \<and>
             copy_cells init_data (sv_data (snd ws)) init_size (fst ws) = Inr w1"
  then have r: "resize new_shape (w, initial T device) = Inr ws"
    and cc: "copy_cells init_data (sv_data (snd ws)) init_size (fst ws) = Inr w1"
    and sz: "init_size = size_of_shape new_shape" by blast+
  from resize_result [OF r] have
    ty: "T = sv_dtype (snd ws)" and dv: "sv_device (snd ws) = device" and
    n: "init_size = sv_size (snd ws)" and lg: "backend_log (fst ws) = backend_log w"
    by (simp_all add: initial_def sz)
  have route: "(with_cuda \<and> CPU \<noteq> device) = (with_cuda \<and> device = CUDA)"
    by (cases device) simp_all
  have "result_log (copy_from with_cuda T init_data init_size CPU ws) =
          Inr (backend_log w @
                 [if with_cuda \<and> device = CUDA then Cross_copy CPU CUDA else Copy CPU])"
    using result_log_copy_from [OF ty n cc, of with_cuda CPU] route
    by (auto simp: dv lg)
  then show "result_log
               (StorageView_from_vector with_cuda T new_shape init_data init_size device w) =
             Inr (backend_log w @
                    [if with_cuda \<and> device = CUDA then Cross_copy CPU CUDA else Copy CPU])"
    by (simp add: StorageView_from_vector_def r)
qed

theorem from_vector_source_is_host_witness:
  "result_log (StorageView_from_vector True DT_FLOAT [2, 2] (Ptr 1 0) 4 CUDA vec_world) =
     Inr [Cross_copy CPU CUDA] \<and>
   result_log (StorageView_from_vector True DT_FLOAT [2, 2] (Ptr 1 0) 4 CPU vec_world) =
     Inr [Copy CPU] \<and>
   result_block 2 (StorageView_from_vector True DT_FLOAT [2, 2] (Ptr 1 0) 4 CUDA vec_world) =
     Inr (Some [5, 6, 7, 8])"
proof -
  let ?wa = "vec_world\<lparr>heap := (heap vec_world)(2 \<mapsto> [99, 99, 99, 99]), next_block := 3\<rparr>"
  let ?w1 = "?wa\<lparr>heap := (heap ?wa)(2 \<mapsto> [5, 6, 7, 8])\<rparr>"
  let ?s = "\<lambda>d. \<lparr>sv_dtype = DT_FLOAT, sv_device = d, sv_data = Ptr 2 0, sv_own_data = True,
                  sv_allocated_size = 4, sv_size = 4, sv_shape = [2, 2 :: size_t],
                  sv_strides = [2, 1 :: size_t]\<rparr>"
  have r: "resize [2, 2] (vec_world, initial DT_FLOAT d) = Inr (?wa, ?s d)" for d
    by (simp add: resize_def reserve_def initial_def size_of_shape_def destroy_def nullptr_def
        alloc_data_def strides_of_shape_def stride_of_shape_def vec_world_def upt_rec)
  have sz: "(4 :: size_t) = size_of_shape [2, 2]" by (simp add: size_of_shape_def)
  have cc: "copy_cells (Ptr 1 0) (sv_data (snd (?wa, ?s d))) 4 (fst (?wa, ?s d)) = Inr ?w1" for d
    by (simp add: copy_cells_def load_def store_def vec_world_def)
  have pre: "resize [2, 2] (vec_world, initial DT_FLOAT d) = Inr (?wa, ?s d) \<and>
             (4 :: size_t) = size_of_shape [2, 2] \<and>
             copy_cells (Ptr 1 0) (sv_data (snd (?wa, ?s d))) 4 (fst (?wa, ?s d)) = Inr ?w1" for d
    using r sz cc by blast
  have lg: "backend_log vec_world = []" by (simp add: vec_world_def)
  have a: "result_log (StorageView_from_vector True DT_FLOAT [2, 2] (Ptr 1 0) 4 CUDA vec_world) =
             Inr [Cross_copy CPU CUDA]"
    using from_vector_source_is_host
            [of True DT_FLOAT "[2, 2]" "Ptr 1 0" 4 CUDA vec_world "(?wa, ?s CUDA)" ?w1,
             THEN conjunct2, THEN conjunct2, THEN mp, OF pre [of CUDA]]
    unfolding lg by simp
  have b: "result_log (StorageView_from_vector True DT_FLOAT [2, 2] (Ptr 1 0) 4 CPU vec_world) =
             Inr [Copy CPU]"
    using from_vector_source_is_host
            [of True DT_FLOAT "[2, 2]" "Ptr 1 0" 4 CPU vec_world "(?wa, ?s CPU)" ?w1,
             THEN conjunct2, THEN conjunct2, THEN mp, OF pre [of CPU]]
    unfolding lg by simp
  have c: "result_block 2 (StorageView_from_vector True DT_FLOAT [2, 2] (Ptr 1 0) 4 CUDA vec_world) =
             Inr (Some [5, 6, 7, 8])"
    by (simp only: StorageView_from_vector_def r sum.case)
       (simp add: copy_from_def data_def cross_device_copy_def
          copy_cells_def load_def store_def result_block_def vec_world_def)
  from a b c show ?thesis by simp
qed

text \<open>
  The claim as stated fails in a build without \<^verbatim>\<open>WITH_CUDA\<close>: an object constructed
  on CUDA from a vector is filled through \<^verbatim>\<open>primitives<CPU>::copy\<close>, the same-device
  copy, not through a cross-device copy.
\<close>

theorem from_vector_source_is_host_counterexample:
  "result_view (StorageView_from_vector False DT_FLOAT [2, 2] (Ptr 1 0) 4 CUDA vec_world) =
     Inr \<lparr>sv_dtype = DT_FLOAT, sv_device = CUDA, sv_data = Ptr 2 0, sv_own_data = True,
          sv_allocated_size = 4, sv_size = 4, sv_shape = [2, 2], sv_strides = [2, 1]\<rparr> \<and>
   result_log (StorageView_from_vector False DT_FLOAT [2, 2] (Ptr 1 0) 4 CUDA vec_world) =
     Inr [Copy CPU]"
  by (simp add: StorageView_from_vector_def resize_def reserve_def initial_def size_of_shape_def
      destroy_def nullptr_def alloc_data_def vec_world_def copy_from_def data_def
      primitives_copy_def copy_cells_def load_def store_def result_log_def result_view_def
      strides_of_shape_def stride_of_shape_def upt_rec)


subsection \<open>The invariants under the mutators\<close>

text \<open>
  C1. A freshly initialised object satisfies the invariant, and every mutator
  (\<open>resize\<close>, \<open>resize(dim, size)\<close>, \<open>grow\<close>, \<open>shrink\<close>, \<open>reshape\<close>, \<open>clear\<close>, \<open>release\<close>,
  \<open>reserve\<close>, \<open>assign\<close>, copy assignment from an object that satisfies it) that returns
  leaves an object that satisfies it: the logical size is the size of the shape (the
  product of its dimensions, 0 for the empty view), and the capacity is at least the
  logical size.
\<close>

theorem mutators_keep_invariant:
  "invariant (initial T d) \<and>
   (invariant (snd ws) \<and> (\<forall>other. m = Copy_assign other \<longrightarrow> invariant other) \<and>
    mutate m ws = Inr ws' \<longrightarrow> invariant (snd ws'))"
proof (intro conjI impI)
  show "invariant (initial T d)" by (rule invariant_initial)
next
  assume h: "invariant (snd ws) \<and> (\<forall>other. m = Copy_assign other \<longrightarrow> invariant other) \<and>
             mutate m ws = Inr ws'"
  then have inv: "invariant (snd ws)" and run: "mutate m ws = Inr ws'"
    and oth: "\<And>other. m = Copy_assign other \<Longrightarrow> invariant other" by blast+
  show "invariant (snd ws')"
  proof (cases m)
    case (Resize x) with run show ?thesis by (simp add: invariant_resize)
  next
    case (Resize_dim d n) with run show ?thesis
      by (auto simp: resize_dim_def split: if_splits dest: invariant_resize)
  next
    case (Grow d n) with run show ?thesis
      by (auto simp: grow_def resize_dim_def split: if_splits dest: invariant_resize)
  next
    case (Shrink d n) with run show ?thesis
      by (auto simp: shrink_def resize_dim_def split: if_splits dest: invariant_resize)
  next
    case (Reshape x) with run inv show ?thesis
      by (auto split: sum.splits dest: invariant_reshape)
  next
    case Clear with run show ?thesis by (auto simp: invariant_clear)
  next
    case Release with run show ?thesis by (auto simp: invariant_release)
  next
    case (Reserve n) with run inv show ?thesis by (auto dest: invariant_reserve)
  next
    case (Assign T p x) with run show ?thesis by (auto dest: invariant_assign)
  next
    case (Copy_assign other) with run oth show ?thesis by (auto dest: invariant_deep_copy)
  qed
qed

text \<open>
  Growing the \<open>[2, 3]\<close> view of ones along dimension 1, and clearing it.
\<close>

theorem mutators_keep_invariant_witness:
  "invariant (snd (ones_world, ones_view)) \<and>
   result_view (mutate (Grow 1 1) (ones_world, ones_view)) =
     Inr \<lparr>sv_dtype = DT_FLOAT, sv_device = CPU, sv_data = Ptr 2 0, sv_own_data = True,
          sv_allocated_size = 8, sv_size = 8, sv_shape = [2, 4], sv_strides = [4, 1]\<rparr> \<and>
   invariant \<lparr>sv_dtype = DT_FLOAT, sv_device = CPU, sv_data = Ptr 2 0, sv_own_data = True,
          sv_allocated_size = 8, sv_size = 8, sv_shape = [2, 4], sv_strides = [4, 1]\<rparr> \<and>
   mutate Clear (ones_world, ones_view) = Inr (ones_world, clear ones_view) \<and>
   sv_size (clear ones_view) = 0 \<and> sv_shape (clear ones_view) = [] \<and>
   invariant (clear ones_view)"
proof -
  let ?w = "ones_world\<lparr>heap := ((heap ones_world)(1 := None))(2 \<mapsto> [99, 99, 99, 99, 99, 99, 99, 99]),
                        next_block := 3\<rparr>"
  let ?s = "\<lparr>sv_dtype = DT_FLOAT, sv_device = CPU, sv_data = Ptr 2 0, sv_own_data = True,
            sv_allocated_size = 8, sv_size = 8, sv_shape = [2, 4 :: size_t],
            sv_strides = [4, 1 :: size_t]\<rparr>"
  have inv: "invariant (snd (ones_world, ones_view))"
    by (simp add: invariant_def size_of_shape_def ones_view_def)
  have no_copy: "\<forall>other. Grow 1 1 = Copy_assign other \<longrightarrow> invariant other"
    and no_copy': "\<forall>other. Clear = Copy_assign other \<longrightarrow> invariant (other :: DataType StorageView)"
    by simp_all
  have run: "mutate (Grow 1 1) (ones_world, ones_view) = Inr (?w, ?s)"
    by (simp add: grow_def resize_dim_def resize_def reserve_def size_of_shape_def destroy_def
        free_data_def nullptr_def alloc_data_def strides_of_shape_def stride_of_shape_def
        ones_world_def ones_view_def upt_rec)
  have run': "mutate Clear (ones_world, ones_view) = Inr (ones_world, clear ones_view)"
    by simp
  have a: "invariant (snd (?w, ?s))"
    using mutators_keep_invariant
            [of DT_FLOAT CPU "(ones_world, ones_view)" "Grow 1 1" "(?w, ?s)", THEN conjunct2]
          inv no_copy run by blast
  have b: "invariant (snd (ones_world, clear ones_view))"
    using mutators_keep_invariant
            [of DT_FLOAT CPU "(ones_world, ones_view)" Clear "(ones_world, clear ones_view)",
             THEN conjunct2]
          inv no_copy' run' by blast
  have c: "sv_size (clear ones_view) = 0" "sv_shape (clear ones_view) = []"
    by (simp_all add: clear_def)
  from inv run run' a b c show ?thesis
    by (simp add: result_view_def)
qed

subsection \<open>Reshape\<close>

text \<open>
  C2. For shapes \<open>S1\<close> and \<open>S2\<close> whose products both equal the logical size,
  \<open>reshape(S1)\<close> followed by \<open>reshape(S2)\<close> succeeds and changes nothing but shape and
  strides: \<open>shape()\<close> is \<open>S2\<close>, \<open>stride(i)\<close> is the row-major stride of \<open>S2\<close> (the product
  of the dimensions after \<open>i\<close>), and flat access reads, for every type and offset, what
  it read before (reshape does not touch the memory). A reshape to a shape whose
  product differs from the logical size is rejected.
\<close>

theorem reshape_round_trip:
  "(size_of_shape S1 = sv_size s \<and> size_of_shape S2 = sv_size s \<longrightarrow>
      (\<exists>s1. reshape S1 s = Inr s1 \<and>
            reshape S2 s1 = Inr (s\<lparr>sv_shape := S2, sv_strides := strides_of_shape S2\<rparr>)) \<and>
      shape (s\<lparr>sv_shape := S2, sv_strides := strides_of_shape S2\<rparr>) = S2 \<and>
      (\<forall>i<length S2.
         stride (int i) (s\<lparr>sv_shape := S2, sv_strides := strides_of_shape S2\<rparr>) =
           Inr (prod_list (drop (Suc i) S2))) \<and>
      (\<forall>T k. at_value T k (w, s\<lparr>sv_shape := S2, sv_strides := strides_of_shape S2\<rparr>) =
             at_value T k (w, s))) \<and>
   (size_of_shape S \<noteq> sv_size s \<longrightarrow> reshape S s = Inl Shape_mismatch)"
proof (intro conjI impI allI)
  assume h: "size_of_shape S1 = sv_size s \<and> size_of_shape S2 = sv_size s"
  then have "reshape S1 s = Inr (s\<lparr>sv_shape := S1, sv_strides := strides_of_shape S1\<rparr>)"
    by (simp add: reshape_def)
  moreover from h have
    "reshape S2 (s\<lparr>sv_shape := S1, sv_strides := strides_of_shape S1\<rparr>) =
       Inr (s\<lparr>sv_shape := S2, sv_strides := strides_of_shape S2\<rparr>)"
    by (simp add: reshape_def)
  ultimately show "\<exists>s1. reshape S1 s = Inr s1 \<and>
            reshape S2 s1 = Inr (s\<lparr>sv_shape := S2, sv_strides := strides_of_shape S2\<rparr>)"
    by blast
next
  show "shape (s\<lparr>sv_shape := S2, sv_strides := strides_of_shape S2\<rparr>) = S2"
    by (simp add: shape_def)
next
  fix i assume "i < length S2"
  then show "stride (int i) (s\<lparr>sv_shape := S2, sv_strides := strides_of_shape S2\<rparr>) =
           Inr (prod_list (drop (Suc i) S2))"
    by (rule stride_strides_of_shape)
next
  fix T k
  show "at_value T k (w, s\<lparr>sv_shape := S2, sv_strides := strides_of_shape S2\<rparr>) =
             at_value T k (w, s)"
    by (rule at_value_reshaped)
next
  assume "size_of_shape S \<noteq> sv_size s"
  then show "reshape S s = Inl Shape_mismatch"
    by (simp add: reshape_def)
qed

theorem reshape_round_trip_witness:
  "size_of_shape [3, 2] = sv_size ones_view \<and> size_of_shape [1, 6] = sv_size ones_view \<and>
   reshape [3, 2] ones_view =
     Inr (ones_view\<lparr>sv_shape := [3, 2], sv_strides := [2, 1]\<rparr>) \<and>
   reshape [1, 6] (ones_view\<lparr>sv_shape := [3, 2], sv_strides := [2, 1]\<rparr>) =
     Inr (ones_view\<lparr>sv_shape := [1, 6], sv_strides := [6, 1]\<rparr>) \<and>
   stride 0 (ones_view\<lparr>sv_shape := [1, 6], sv_strides := [6, 1]\<rparr>) = Inr 6 \<and>
   stride 1 (ones_view\<lparr>sv_shape := [1, 6], sv_strides := [6, 1]\<rparr>) = Inr 1 \<and>
   at_value DT_FLOAT 5 (ones_world, ones_view\<lparr>sv_shape := [1, 6], sv_strides := [6, 1]\<rparr>) =
     at_value DT_FLOAT 5 (ones_world, ones_view) \<and>
   at_value DT_FLOAT 5 (ones_world, ones_view) = Inr 1 \<and>
   size_of_shape [4, 2] \<noteq> sv_size ones_view \<and>
   reshape [4, 2] ones_view = Inl Shape_mismatch"
proof -
  have st: "strides_of_shape [1, 6] = [6, 1]" "strides_of_shape [3, 2] = [2, 1]"
    by (simp_all add: strides_of_shape_def stride_of_shape_def upt_rec)
  have pre: "size_of_shape [3, 2] = sv_size ones_view \<and> size_of_shape [1, 6] = sv_size ones_view"
    and ne: "size_of_shape [4, 2] \<noteq> sv_size ones_view"
    by (simp_all add: size_of_shape_def ones_view_def)
  note inst = reshape_round_trip [of "[3, 2]" ones_view "[1, 6]" ones_world "[4, 2]"]
  from inst pre have
    av: "at_value DT_FLOAT 5 (ones_world, ones_view\<lparr>sv_shape := [1, 6], sv_strides := [6, 1]\<rparr>) =
         at_value DT_FLOAT 5 (ones_world, ones_view)"
    unfolding st by blast
  from inst ne have rej: "reshape [4, 2] ones_view = Inl Shape_mismatch" by blast
  have r1: "reshape [3, 2] ones_view =
              Inr (ones_view\<lparr>sv_shape := [3, 2], sv_strides := [2, 1]\<rparr>)"
    and r2: "reshape [1, 6] (ones_view\<lparr>sv_shape := [3, 2], sv_strides := [2, 1]\<rparr>) =
              Inr (ones_view\<lparr>sv_shape := [1, 6], sv_strides := [6, 1]\<rparr>)"
    using pre by (simp_all add: reshape_def st)
  have s0: "stride 0 (ones_view\<lparr>sv_shape := [1, 6], sv_strides := [6, 1]\<rparr>) = Inr 6"
    and s1: "stride 1 (ones_view\<lparr>sv_shape := [1, 6], sv_strides := [6, 1]\<rparr>) = Inr 1"
    by (simp_all add: stride_def)
  have v: "at_value DT_FLOAT 5 (ones_world, ones_view) = Inr 1"
    by (simp add: at_value_def at_def data_def deref_def ptr_add_def ones_world_def ones_view_def)
  from pre ne r1 r2 s0 s1 av v rej show ?thesis by blast
qed

subsection \<open>Borrowing an external buffer\<close>

text \<open>
  C5. With the matching type tag, \<open>assign(data, shape)\<close> succeeds. The world afterwards
  is the world after \<open>release()\<close>: a previously owned buffer is freed, no other block
  changes and the backend is not called (no element is copied). The object points to
  \<open>data\<close>, does not own it, and has capacity and logical size equal to the size of
  the shape, which is the product of its dimensions (for the empty shape, the size 0
  of the empty view), with the shape and its strides applied. On the result, neither
  \<open>release()\<close> nor the destructor changes the world: the external buffer is not freed.
\<close>

theorem assign_borrows_buffer:
  "T = sv_dtype (snd ws) \<longrightarrow>
     assign T p new_shape ws =
       Inr (destroy ws,
            (snd ws)\<lparr>sv_data := p, sv_own_data := False,
                     sv_allocated_size := size_of_shape new_shape,
                     sv_size := size_of_shape new_shape,
                     sv_shape := new_shape,
                     sv_strides := strides_of_shape new_shape\<rparr>) \<and>
     (new_shape \<noteq> [] \<longrightarrow> size_of_shape new_shape = prod_list new_shape) \<and>
     fst (release ws) = destroy ws \<and>
     (sv_own_data (snd ws) \<and> sv_data (snd ws) \<noteq> nullptr \<longrightarrow>
        heap (destroy ws) (block (sv_data (snd ws))) = None) \<and>
     (\<forall>b. b \<noteq> block (sv_data (snd ws)) \<longrightarrow> heap (destroy ws) b = heap (fst ws) b) \<and>
     backend_log (destroy ws) = backend_log (fst ws) \<and>
     (\<forall>ws'. assign T p new_shape ws = Inr ws' \<longrightarrow>
        fst (release ws') = fst ws' \<and> destroy ws' = fst ws')"
proof (intro impI conjI allI)
  assume ty: "T = sv_dtype (snd ws)"
  show a: "assign T p new_shape ws =
       Inr (destroy ws,
            (snd ws)\<lparr>sv_data := p, sv_own_data := False,
                     sv_allocated_size := size_of_shape new_shape,
                     sv_size := size_of_shape new_shape,
                     sv_shape := new_shape,
                     sv_strides := strides_of_shape new_shape\<rparr>)"
    using ty
    by (simp add: assign_def release_def reshape_def clear_def destroy_def)
  show "size_of_shape new_shape = prod_list new_shape" if "new_shape \<noteq> []"
    using that by (rule size_of_shape_nonempty)
  show "fst (release ws) = destroy ws" by (simp add: release_fields)
  show "heap (destroy ws) (block (sv_data (snd ws))) = None"
    if "sv_own_data (snd ws) \<and> sv_data (snd ws) \<noteq> nullptr"
    using that by (simp add: destroy_frame)
  show "heap (destroy ws) b = heap (fst ws) b" if "b \<noteq> block (sv_data (snd ws))" for b
    using that by (simp add: destroy_frame)
  show "backend_log (destroy ws) = backend_log (fst ws)" by (simp add: destroy_frame)
  fix ws' assume "assign T p new_shape ws = Inr ws'"
  with a have nown: "\<not> sv_own_data (snd ws')" by auto
  then show "fst (release ws') = fst ws'" "destroy ws' = fst ws'"
    by (simp_all add: release_fields destroy_frame)
qed

text \<open>
  The spec's scenario: the view that owns block 1 is assigned an external buffer of
  six elements (block 2) with shape \<open>[2, 3]\<close>; block 1 is freed, and block 2 survives
  \<open>release()\<close> and the destructor.
\<close>

theorem assign_borrows_buffer_witness:
  "DT_FLOAT = sv_dtype (snd (ext_world, ones_view)) \<and>
   result_view (assign DT_FLOAT (Ptr 2 0) [2, 3] (ext_world, ones_view)) =
     Inr \<lparr>sv_dtype = DT_FLOAT, sv_device = CPU, sv_data = Ptr 2 0, sv_own_data = False,
          sv_allocated_size = 6, sv_size = 6, sv_shape = [2, 3], sv_strides = [3, 1]\<rparr> \<and>
   result_log (assign DT_FLOAT (Ptr 2 0) [2, 3] (ext_world, ones_view)) = Inr [Fill CPU] \<and>
   result_block 1 (assign DT_FLOAT (Ptr 2 0) [2, 3] (ext_world, ones_view)) = Inr None \<and>
   result_block 2 (assign DT_FLOAT (Ptr 2 0) [2, 3] (ext_world, ones_view)) =
     Inr (Some [10, 20, 30, 40, 50, 60]) \<and>
   result_block 2 (case assign DT_FLOAT (Ptr 2 0) [2, 3] (ext_world, ones_view) of
                     Inl e \<Rightarrow> Inl e | Inr ws' \<Rightarrow> Inr (release ws')) =
     Inr (Some [10, 20, 30, 40, 50, 60]) \<and>
   (case assign DT_FLOAT (Ptr 2 0) [2, 3] (ext_world, ones_view) of
      Inl e \<Rightarrow> Inl e | Inr ws' \<Rightarrow> Inr (heap (destroy ws') 2)) =
     Inr (Some [10, 20, 30, 40, 50, 60])"
proof -
  let ?ws = "(ext_world, ones_view)"
  let ?b = "ones_view\<lparr>sv_data := Ptr 2 0, sv_own_data := False,
                      sv_allocated_size := size_of_shape [2, 3],
                      sv_size := size_of_shape [2, 3],
                      sv_shape := [2, 3], sv_strides := strides_of_shape [2, 3]\<rparr>"
  have ty: "DT_FLOAT = sv_dtype (snd ?ws)" by (simp add: ones_view_def)
  note inst = assign_borrows_buffer [of DT_FLOAT ?ws "Ptr 2 0" "[2, 3]", THEN mp, OF ty,
                                     unfolded snd_conv]
  have run: "assign DT_FLOAT (Ptr 2 0) [2, 3] ?ws = Inr (destroy ?ws, ?b)"
    by (rule inst [THEN conjunct1])
  note last = inst [THEN conjunct2, THEN conjunct2, THEN conjunct2, THEN conjunct2,
                    THEN conjunct2, THEN conjunct2, THEN spec, THEN mp, OF run]
  have keep: "fst (release (destroy ?ws, ?b)) = destroy ?ws"
    "destroy (destroy ?ws, ?b) = destroy ?ws"
    using last by (simp_all only: fst_conv)
  have st: "strides_of_shape [2, 3] = [3, 1]"
    by (simp add: strides_of_shape_def stride_of_shape_def upt_rec)
  have w: "heap (destroy ?ws) 1 = None" "heap (destroy ?ws) 2 = Some [10, 20, 30, 40, 50, 60]"
    "backend_log (destroy ?ws) = [Fill CPU]"
    by (simp_all add: destroy_def free_data_def nullptr_def ext_world_def ones_view_def)
  have b: "?b = \<lparr>sv_dtype = DT_FLOAT, sv_device = CPU, sv_data = Ptr 2 0, sv_own_data = False,
          sv_allocated_size = 6, sv_size = 6, sv_shape = [2, 3], sv_strides = [3, 1]\<rparr>"
    by (simp add: st size_of_shape_def ones_view_def)
  have rel: "heap (fst (release (destroy ?ws, ?b))) 2 = Some [10, 20, 30, 40, 50, 60]"
    and des: "heap (destroy (destroy ?ws, ?b)) 2 = Some [10, 20, 30, 40, 50, 60]"
    unfolding keep by (rule w(2))+
  show ?thesis
    unfolding run result_view_def result_log_def result_block_def sum.case fst_conv snd_conv
  proof (intro conjI)
    show "DT_FLOAT = sv_dtype ones_view" using ty by (simp only: snd_conv)
  qed (simp_all only: w b rel [unfolded b] des [unfolded b])
qed


subsection \<open>Resize: reallocation and reuse\<close>





end
